theory Spec2Isabelle
  imports Complex_Main "HOL-Library.Log_Nat" "HOL-Library.Word"
begin

unbundle bit_operations_syntax

section \<open>Python floats: binary64 values as rationals\<close>

text \<open>
  Every finite double is a rational number. A Python float is modelled as the rational it
  denotes, and each arithmetic operation as the exact operation followed by rounding to
  the nearest value with a 53-bit significand, ties to even (IEEE 754 binary64,
  round-to-nearest-even). All values of \<^verbatim>\<open>create_icon.py\<close> are zero or lie between
  1/65536 and 1024 in magnitude, so the exponent range of binary64 (overflow, subnormal
  numbers) plays no part and is not modelled.
\<close>

definition pow2 :: "int \<Rightarrow> rat" where
  "pow2 e = (if 0 \<le> e then 2 ^ nat e else 1 / 2 ^ nat (- e))"

text \<open>The binary exponent \<open>\<lfloor>log\<^sub>2 q\<rfloor>\<close> of a positive rational.\<close>

definition expo :: "rat \<Rightarrow> int" where
  "expo q = (let e0 = bitlen (fst (quotient_of q)) - bitlen (snd (quotient_of q))
             in if pow2 e0 \<le> q then e0 else e0 - 1)"

definition round_even :: "rat \<Rightarrow> int" where
  "round_even q = (let f = \<lfloor>q\<rfloor>; d = q - of_int f
                   in if d < 1 / 2 then f
                      else if 1 / 2 < d then f + 1
                      else if even f then f else f + 1)"

definition rnd :: "rat \<Rightarrow> rat" where
  "rnd q = (if q = 0 then 0
            else let u = pow2 (expo \<bar>q\<bar> - 52)
                 in sgn q * (of_int (round_even (\<bar>q\<bar> / u)) * u))"

definition fadd :: "rat \<Rightarrow> rat \<Rightarrow> rat" where "fadd a b = rnd (a + b)"
definition fsub :: "rat \<Rightarrow> rat \<Rightarrow> rat" where "fsub a b = rnd (a - b)"
definition fmul :: "rat \<Rightarrow> rat \<Rightarrow> rat" where "fmul a b = rnd (a * b)"

text \<open>Float division; every divisor of the program is a non-zero constant, so
  Python's ZeroDivisionError cannot arise and is not a branch of the model.\<close>

definition fdiv :: "rat \<Rightarrow> rat \<Rightarrow> rat" where "fdiv a b = rnd (a / b)"

text \<open>A decimal float literal denotes the double nearest to it: \<open>dec 85 2\<close> is the
  literal \<open>0.85\<close>, the double nearest to 85 / 100.\<close>

definition dec :: "int \<Rightarrow> int \<Rightarrow> rat" where "dec m k = rnd (of_int m / 10 ^ nat k)"

text \<open>Conversion of a Python int to float, as in \<open>x - size/2\<close>.\<close>

definition of_py_int :: "int \<Rightarrow> rat" where "of_py_int n = rnd (of_int n)"

text \<open>\<open>int(v)\<close> on a float truncates towards zero.\<close>

definition py_int :: "rat \<Rightarrow> int" where
  "py_int q = (if 0 \<le> q then \<lfloor>q\<rfloor> else \<lceil>q\<rceil>)"

text \<open>
  \<open>v ** 2\<close> and \<open>v ** 0.5\<close> call the C library's \<open>pow\<close>. Unlike the four
  arithmetic operations, \<open>pow\<close> is not required to round correctly: it is accurate to
  about one unit in the last place, and at some coordinates of the canvas the program's
  \<open>dist\<close> can be the double next to the nearest one. The model takes the nearest
  double, of the exact square and of the exact square root. No theorem below depends on
  the difference: the theorems about all pixels hold for every value of \<open>dist\<close> (see
  the section on \<open>shade_pixel\<close>), and \<open>dist\<close> is evaluated only at 0 and at squares of
  doubles, where the root is exact and the library returns it, and at the corner (0, 0),
  where it is the root of 2, far above 0.9.
\<close>

definition pow_two :: "rat \<Rightarrow> rat" where "pow_two v = rnd (v * v)"

function isqrt :: "int \<Rightarrow> int" where
  "isqrt n = (if n < 4 then (if n \<le> 0 then 0 else 1)
              else (let r = 2 * isqrt (n div 4)
                    in if (r + 1) * (r + 1) \<le> n then r + 1 else r))"
  by pat_completeness auto

termination isqrt
  by (relation "measure nat") auto

declare isqrt.simps [simp del]

text \<open>The radicand of the program is a sum of squares and never negative; on a negative
  argument, where Python answers with a complex number, the model is left at 0.\<close>

definition pow_half :: "rat \<Rightarrow> rat" where
  "pow_half q = (if q \<le> 0 then 0
                 else let u = pow2 (expo q div 2 - 52);
                          t = q / (u * u);
                          n = isqrt \<lfloor>t\<rfloor>;
                          m = of_int n + 1 / 2;
                          k = (if t < m * m then n
                               else if m * m < t then n + 1
                               else if even n then n else n + 1)
                      in of_int k * u)"

section \<open>The image synthesizer\<close>

type_synonym rgb = "int \<times> int \<times> int"
type_synonym rgba = "int \<times> int \<times> int \<times> int"

definition size_px :: int where "size_px = 512"

text \<open>\<open>(x - size/2) / (size/2)\<close>\<close>

definition norm_coord :: "int \<Rightarrow> rat" where
  "norm_coord x = fdiv (fsub (of_py_int x) (fdiv (of_int size_px) 2)) (fdiv (of_int size_px) 2)"

text \<open>\<open>(nx*nx + ny*ny) ** 0.5\<close>\<close>

definition dist_of :: "rat \<Rightarrow> rat \<Rightarrow> rat" where
  "dist_of nx ny = pow_half (fadd (fmul nx nx) (fmul ny ny))"

definition cyl_width :: rat where "cyl_width = dec 5 1"
definition ellipse_h :: rat where "ellipse_h = dec 8 2"

text \<open>
  The three constants that place the cylinders vertically, \<open>cy1\<close>, \<open>cy2\<close> and
  \<open>cyl_height\<close>, are arguments \<open>c1\<close>, \<open>c2\<close>, \<open>h\<close> of the tests below, so that each
  guard reads as in the source. The program fixes them to \<open>-0.25\<close>, \<open>0.25\<close> and
  \<open>0.25\<close> (\<open>pixel\<close>), and every theorem is about these values.
\<close>

definition in_top_cyl :: "rat \<Rightarrow> rat \<Rightarrow> rat \<Rightarrow> rat \<Rightarrow> bool" where
  "in_top_cyl c1 h nx ny \<longleftrightarrow> \<bar>nx\<bar> < cyl_width \<and> \<bar>fsub ny c1\<bar> < h"

definition in_bot_cyl :: "rat \<Rightarrow> rat \<Rightarrow> rat \<Rightarrow> rat \<Rightarrow> bool" where
  "in_bot_cyl c2 h nx ny \<longleftrightarrow> \<bar>nx\<bar> < cyl_width \<and> \<bar>fsub ny c2\<bar> < h"

definition top_e1 :: "rat \<Rightarrow> rat \<Rightarrow> rat \<Rightarrow> rat \<Rightarrow> bool" where
  "top_e1 c1 h nx ny \<longleftrightarrow>
     fadd (pow_two (fdiv nx cyl_width)) (pow_two (fdiv (fadd (fsub ny c1) h) ellipse_h)) < 1"

definition bot_e1 :: "rat \<Rightarrow> rat \<Rightarrow> rat \<Rightarrow> rat \<Rightarrow> bool" where
  "bot_e1 c1 h nx ny \<longleftrightarrow>
     fadd (pow_two (fdiv nx cyl_width)) (pow_two (fdiv (fsub (fsub ny c1) h) ellipse_h)) < 1"

definition top_e2 :: "rat \<Rightarrow> rat \<Rightarrow> rat \<Rightarrow> rat \<Rightarrow> bool" where
  "top_e2 c2 h nx ny \<longleftrightarrow>
     fadd (pow_two (fdiv nx cyl_width)) (pow_two (fdiv (fadd (fsub ny c2) h) ellipse_h)) < 1"

definition bot_e2 :: "rat \<Rightarrow> rat \<Rightarrow> rat \<Rightarrow> rat \<Rightarrow> bool" where
  "bot_e2 c2 h nx ny \<longleftrightarrow>
     fadd (pow_two (fdiv nx cyl_width)) (pow_two (fdiv (fsub (fsub ny c2) h) ellipse_h)) < 1"

text \<open>\<open>1.0 - abs(nx) / cyl_width * 0.3\<close>\<close>

definition shade :: "rat \<Rightarrow> rat" where
  "shade nx = fsub 1 (fmul (fdiv \<bar>nx\<bar> cyl_width) (dec 3 1))"

definition top_member :: "rat \<Rightarrow> rat \<Rightarrow> rat \<Rightarrow> rat \<Rightarrow> bool" where
  "top_member c1 h nx ny \<longleftrightarrow> in_top_cyl c1 h nx ny \<or> top_e1 c1 h nx ny \<or> bot_e1 c1 h nx ny"

definition bot_member :: "rat \<Rightarrow> rat \<Rightarrow> rat \<Rightarrow> rat \<Rightarrow> bool" where
  "bot_member c2 h nx ny \<longleftrightarrow> in_bot_cyl c2 h nx ny \<or> top_e2 c2 h nx ny \<or> bot_e2 c2 h nx ny"

definition top_color :: "rat \<Rightarrow> rat \<Rightarrow> rat \<Rightarrow> rat \<Rightarrow> rgb" where
  "top_color c1 h nx ny =
     (let s = shade nx;
          c = (py_int (fmul 40 s), py_int (fmul 180 s), py_int (fmul 100 s))
      in if top_e1 c1 h nx ny then (60, 220, 130) else c)"

definition bot_color :: "rat \<Rightarrow> rat \<Rightarrow> rat \<Rightarrow> rat \<Rightarrow> rgb" where
  "bot_color c2 h nx ny =
     (let s = shade nx;
          c = (py_int (fmul 60 s), py_int (fmul 140 s), py_int (fmul 220 s))
      in if top_e2 c2 h nx ny then (80, 170, 255) else c)"

definition connector :: "rat \<Rightarrow> rat \<Rightarrow> rat \<Rightarrow> rat \<Rightarrow> rat \<Rightarrow> bool" where
  "connector c1 c2 h nx ny \<longleftrightarrow>
     \<bar>nx\<bar> < dec 8 2 \<and> fadd (fadd c1 h) (dec 5 2) < ny
       \<and> ny < fsub (fsub c2 h) (dec 5 2)"

definition arrow_tip_y :: "rat \<Rightarrow> rat \<Rightarrow> rat" where
  "arrow_tip_y c2 h = fsub (fsub c2 h) (dec 8 2)"

definition arrow_w :: "rat \<Rightarrow> rat \<Rightarrow> rat \<Rightarrow> rat" where
  "arrow_w c2 h ny =
     fmul (dec 15 2)
       (fsub 1 (fdiv (fadd (fsub ny (arrow_tip_y c2 h)) (dec 8 2)) (dec 13 2)))"

definition arrow :: "rat \<Rightarrow> rat \<Rightarrow> rat \<Rightarrow> rat \<Rightarrow> bool" where
  "arrow c2 h nx ny \<longleftrightarrow>
     fsub (arrow_tip_y c2 h) (dec 8 2) < ny \<and> ny < fadd (arrow_tip_y c2 h) (dec 5 2)
       \<and> \<bar>nx\<bar> < arrow_w c2 h ny"

definition base_color :: "int \<Rightarrow> rgb" where
  "base_color y =
     (let gradient = fdiv (of_int y) (of_int size_px)
      in (py_int (fadd 30 (fmul gradient 40)), py_int (fadd 20 (fmul gradient 30)),
          py_int (fadd 80 (fmul gradient 80))))"

definition red :: rgb where "red = (255, 100, 100)"

text \<open>The branch \<open>dist < 0.85\<close>: the assignments to \<open>r, g, b\<close> in the order of the source,
  each later one replacing the earlier; \<open>a\<close> is assigned once.\<close>

definition interior :: "rat \<Rightarrow> rat \<Rightarrow> rat \<Rightarrow> rat \<Rightarrow> rat \<Rightarrow> int \<Rightarrow> rgba" where
  "interior c1 c2 h nx ny y =
     (let p0 = base_color y;
          p1 = (if top_member c1 h nx ny then top_color c1 h nx ny else p0);
          p2 = (if bot_member c2 h nx ny then bot_color c2 h nx ny else p1);
          p3 = (if connector c1 c2 h nx ny then red else p2);
          p4 = (if arrow c2 h nx ny then red else p3)
      in (fst p4, fst (snd p4), snd (snd p4), 255))"

text \<open>The branch \<open>0.85 \<le> dist < 0.9\<close>.\<close>

definition rim :: "rat \<Rightarrow> rgba" where
  "rim d =
     (let af = fdiv (fsub (dec 9 1) d) (dec 5 2)
      in (py_int (fmul 100 af), py_int (fmul 80 af), py_int (fmul 180 af), py_int (fmul 255 af)))"

definition shade_pixel :: "rat \<Rightarrow> rat \<Rightarrow> rat \<Rightarrow> rat \<Rightarrow> rat \<Rightarrow> rat \<Rightarrow> int \<Rightarrow> rgba" where
  "shade_pixel c1 c2 h nx ny d y =
     (if d < dec 85 2 then interior c1 c2 h nx ny y
      else if d < dec 9 1 then rim d
      else (0, 0, 0, 0))"

definition pixel_at :: "rat \<Rightarrow> rat \<Rightarrow> rat \<Rightarrow> int \<Rightarrow> int \<Rightarrow> rgba" where
  "pixel_at c1 c2 h x y =
     (let nx = norm_coord x; ny = norm_coord y
      in shade_pixel c1 c2 h nx ny (dist_of nx ny) y)"

definition cy1 :: rat where "cy1 = - dec 25 2"
definition cy2 :: rat where "cy2 = dec 25 2"
definition cyl_height :: rat where "cyl_height = dec 25 2"

text \<open>The pixel the program computes at column \<open>x\<close> of row \<open>y\<close>.\<close>

definition pixel :: "int \<Rightarrow> int \<Rightarrow> rgba" where
  "pixel x y = pixel_at cy1 cy2 cyl_height x y"

definition rgb_of :: "rgba \<Rightarrow> rgb" where
  "rgb_of p = (fst p, fst (snd p), fst (snd (snd p)))"

definition alpha :: "rgba \<Rightarrow> int" where
  "alpha p = snd (snd (snd p))"

section \<open>The PNG encoder\<close>

type_synonym byte = "8 word"

datatype error = ValueError | StructError | OSError



text \<open>The first error of a sequence of byte strings, or their concatenation.\<close>

fun join :: "(error + byte list) list \<Rightarrow> error + byte list" where
  "join [] = Inr []"
| "join (Inl e # rs) = Inl e"
| "join (Inr bs # rs) = (case join rs of Inl e \<Rightarrow> Inl e | Inr cs \<Rightarrow> Inr (bs @ cs))"




text \<open>\<open>struct.pack\<close> with the formats \<open>>I\<close> and \<open>B\<close>: struct.error outside the range
  of the field.\<close>

definition be32 :: "int \<Rightarrow> byte list" where
  "be32 n = [word_of_int (n div 2 ^ 24), word_of_int (n div 2 ^ 16), word_of_int (n div 2 ^ 8),
             word_of_int n]"

definition pack_I :: "int \<Rightarrow> error + byte list" where
  "pack_I n = (if 0 \<le> n \<and> n < 2 ^ 32 then Inr (be32 n) else Inl StructError)"

definition pack_B :: "int \<Rightarrow> error + byte list" where
  "pack_B n = (if 0 \<le> n \<and> n < 256 then Inr [word_of_int n] else Inl StructError)"

text \<open>\<open>zlib.crc32\<close>: the CRC-32 of PNG and zip, bit by bit with the reflected polynomial
  \<open>0xEDB88320\<close>, initial value and final complement \<open>0xFFFFFFFF\<close>.\<close>

definition crc_step :: "32 word \<Rightarrow> 32 word" where
  "crc_step c = (if bit c 0 then drop_bit 1 c XOR 0xEDB88320 else drop_bit 1 c)"

definition crc_byte :: "32 word \<Rightarrow> byte \<Rightarrow> 32 word" where
  "crc_byte c b =
     crc_step (crc_step (crc_step (crc_step (crc_step (crc_step (crc_step (crc_step
       (c XOR ucast b))))))))"

definition crc32 :: "byte list \<Rightarrow> int" where
  "crc32 bs = uint (NOT (foldl crc_byte 0xFFFFFFFF bs))"

definition chunk :: "byte list \<Rightarrow> byte list \<Rightarrow> error + byte list" where
  "chunk t d = (let c = t @ d
                in join [pack_I (int (length d)), Inr c, pack_I (crc32 c AND 0xffffffff)])"

definition ihdr :: "error + byte list" where
  "ihdr = join [pack_I size_px, pack_I size_px, pack_B 8, pack_B 6, pack_B 0, pack_B 0, pack_B 0]"


definition tag_IHDR :: "byte list" where "tag_IHDR = [0x49, 0x48, 0x44, 0x52]"










section \<open>Rounding is monotone\<close>

lemma pow2_powi: "pow2 e = 2 powi e"
  by (simp add: pow2_def power_int_def field_simps)

lemma pow2_pos: "0 < pow2 e"
  by (simp add: pow2_powi zero_less_power_int)

lemma pow2_mono: "a \<le> b \<Longrightarrow> pow2 a \<le> pow2 b"
  by (simp add: pow2_powi power_int_increasing)

lemma pow2_add: "pow2 (a + b) = pow2 a * pow2 b"
  by (simp add: pow2_powi power_int_add)

lemma pow2_of_nat: "0 \<le> e \<Longrightarrow> pow2 e = of_int (2 ^ nat e)"
  by (simp add: pow2_def)

lemma bitlen_pow2_bounds:
  assumes "0 < a"
  shows "pow2 (bitlen a - 1) \<le> of_int a" and "of_int a < pow2 (bitlen a)"
proof -
  from bitlen_bounds [OF assms]
  have lo: "2 ^ nat (bitlen a - 1) \<le> a" and hi: "a < 2 ^ nat (bitlen a)" by simp_all
  have pos: "1 \<le> bitlen a"
    using assms bitlen_eq_zero_iff [of a] bitlen_nonneg [of a] by linarith
  have "pow2 (bitlen a - 1) = of_int (2 ^ nat (bitlen a - 1))"
    using pos by (intro pow2_of_nat) simp
  also have "\<dots> \<le> of_int a" using lo by (simp only: of_int_le_iff)
  finally show "pow2 (bitlen a - 1) \<le> of_int a" .
  have "(of_int a :: rat) < of_int (2 ^ nat (bitlen a))"
    using hi by (simp only: of_int_less_iff)
  also have "\<dots> = pow2 (bitlen a)"
    using pos by (intro pow2_of_nat [symmetric]) simp
  finally show "of_int a < pow2 (bitlen a)" .
qed

text \<open>\<open>expo q\<close> is the exponent of the binade of \<open>q\<close>.\<close>

lemma expo_bounds:
  assumes "0 < q"
  shows "pow2 (expo q) \<le> q" and "q < pow2 (expo q + 1)"
proof -
  obtain a b where ab: "quotient_of q = (a, b)" by fastforce
  have b: "0 < b" using quotient_of_denom_pos [OF ab] .
  have q: "q = of_int a / of_int b" using quotient_of_div [OF ab] .
  have a: "0 < a" using assms b q by (simp add: zero_less_divide_iff)
  define e0 where "e0 = bitlen a - bitlen b"
  note A = bitlen_pow2_bounds [OF a] and B = bitlen_pow2_bounds [OF b]
  have bq: "(0::rat) < of_int b" using b by simp
  have up: "q < pow2 (e0 + 1)"
  proof -
    have "pow2 (e0 + 1) * of_int b \<ge> pow2 (e0 + 1) * pow2 (bitlen b - 1)"
      using B(1) pow2_pos [of "e0 + 1"] by (simp only: mult_le_cancel_left_pos)
    moreover have "pow2 (e0 + 1) * pow2 (bitlen b - 1) = pow2 (bitlen a)"
      by (simp add: pow2_add [symmetric] e0_def)
    ultimately have "of_int a < pow2 (e0 + 1) * of_int b" using A(2) by linarith
    then show ?thesis using bq q by (simp add: pos_divide_less_eq)
  qed
  have lo: "pow2 (e0 - 1) \<le> q"
  proof -
    have "pow2 (e0 - 1) * of_int b \<le> pow2 (e0 - 1) * pow2 (bitlen b)"
      using B(2) pow2_pos [of "e0 - 1"] by (simp add: mult_le_cancel_left_pos)
    moreover have "pow2 (e0 - 1) * pow2 (bitlen b) = pow2 (bitlen a - 1)"
      by (simp add: pow2_add [symmetric] e0_def)
    ultimately have "pow2 (e0 - 1) * of_int b \<le> of_int a" using A(1) by linarith
    then show ?thesis using bq q by (simp add: pos_le_divide_eq)
  qed
  have e: "expo q = (if pow2 e0 \<le> q then e0 else e0 - 1)"
    by (simp add: expo_def ab e0_def)
  show "pow2 (expo q) \<le> q" using lo by (simp add: e)
  show "q < pow2 (expo q + 1)" using up by (auto simp add: e)
qed

lemma expo_mono:
  assumes "0 < x" "x \<le> y"
  shows "expo x \<le> expo y"
proof (rule ccontr)
  assume "\<not> expo x \<le> expo y"
  then have "expo y + 1 \<le> expo x" by simp
  then have "pow2 (expo y + 1) \<le> pow2 (expo x)" by (rule pow2_mono)
  also have "\<dots> \<le> x" using expo_bounds(1) [OF assms(1)] .
  finally show False using expo_bounds(2) [of y] assms by simp
qed

lemma round_even_of_int: "round_even (of_int n) = n"
  by (simp add: round_even_def)

lemma round_even_range: "\<lfloor>q\<rfloor> \<le> round_even q \<and> round_even q \<le> \<lfloor>q\<rfloor> + 1"
  by (simp add: round_even_def Let_def)

lemma round_even_mono:
  assumes "x \<le> y"
  shows "round_even x \<le> round_even y"
proof (cases "\<lfloor>x\<rfloor> = \<lfloor>y\<rfloor>")
  case True
  then show ?thesis using assms by (auto simp add: round_even_def Let_def)
next
  case False
  then have "\<lfloor>x\<rfloor> + 1 \<le> \<lfloor>y\<rfloor>" using floor_mono [OF assms] by simp
  then show ?thesis using round_even_range [of x] round_even_range [of y] by linarith
qed

lemma rnd_pos:
  "0 < q \<Longrightarrow> rnd q = of_int (round_even (q / pow2 (expo q - 52))) * pow2 (expo q - 52)"
  by (simp add: rnd_def Let_def)

text \<open>Rounding stays within the closed binade of its argument.\<close>

lemma rnd_pos_range:
  assumes "0 < q"
  shows "pow2 (expo q) \<le> rnd q" and "rnd q \<le> pow2 (expo q + 1)"
proof -
  define u where "u = pow2 (expo q - 52)"
  have u: "0 < u" by (simp add: u_def pow2_pos)
  have "pow2 (52 + (expo q - 52)) = pow2 52 * u" by (simp only: pow2_add u_def)
  then have p52: "pow2 (expo q) = of_int (2 ^ 52) * u" by (simp add: pow2_def)
  have "pow2 (53 + (expo q - 52)) = pow2 53 * u" by (simp only: pow2_add u_def)
  moreover have "53 + (expo q - 52) = expo q + 1" by simp
  ultimately have p53: "pow2 (expo q + 1) = of_int (2 ^ 53) * u" by (simp add: pow2_def)
  have "of_int (2 ^ 52) \<le> q / u"
    using expo_bounds(1) [OF assms] u by (simp only: p52 pos_le_divide_eq)
  from round_even_mono [OF this] have lo: "2 ^ 52 \<le> round_even (q / u)"
    by (simp only: round_even_of_int)
  have "q / u \<le> of_int (2 ^ 53)"
    using expo_bounds(2) [OF assms] u by (simp only: p53 pos_divide_le_eq less_imp_le)
  from round_even_mono [OF this] have hi: "round_even (q / u) \<le> 2 ^ 53"
    by (simp only: round_even_of_int)
  have r: "rnd q = of_int (round_even (q / u)) * u"
    using assms by (simp add: rnd_pos u_def)
  have "of_int (2 ^ 52) * u \<le> of_int (round_even (q / u)) * u"
    using lo u by (simp only: mult_le_cancel_right_pos of_int_le_iff)
  then show "pow2 (expo q) \<le> rnd q" by (simp only: p52 r)
  have "of_int (round_even (q / u)) * u \<le> of_int (2 ^ 53) * u"
    using hi u by (simp only: mult_le_cancel_right_pos of_int_le_iff)
  then show "rnd q \<le> pow2 (expo q + 1)" by (simp only: p53 r)
qed

lemma rnd_mono_pos:
  assumes "0 < x" "x \<le> y"
  shows "rnd x \<le> rnd y"
proof (cases "expo x = expo y")
  case True
  define u where "u = pow2 (expo y - 52)"
  have u: "0 < u" by (simp add: u_def pow2_pos)
  have y: "0 < y" using assms by simp
  have "x / u \<le> y / u" using assms u by (simp add: divide_le_cancel)
  from round_even_mono [OF this]
  have "of_int (round_even (x / u)) * u \<le> of_int (round_even (y / u)) * u"
    using u by (simp only: mult_le_cancel_right_pos of_int_le_iff)
  then show ?thesis using assms(1) y by (simp add: rnd_pos True u_def)
next
  case False
  then have "expo x + 1 \<le> expo y" using expo_mono [OF assms] by simp
  then have "pow2 (expo x + 1) \<le> pow2 (expo y)" by (rule pow2_mono)
  moreover have "0 < y" using assms by simp
  ultimately show ?thesis
    using rnd_pos_range(2) [OF assms(1)] rnd_pos_range(1) [of y] by linarith
qed

lemma rnd_zero: "rnd 0 = 0"
  by (simp add: rnd_def)

lemma rnd_minus: "rnd (- q) = - rnd q"
  by (simp add: rnd_def Let_def)

lemma rnd_pos_pos: "0 < q \<Longrightarrow> 0 < rnd q"
  using rnd_pos_range(1) [of q] pow2_pos [of "expo q"] by linarith

lemma rnd_mono:
  assumes "x \<le> y"
  shows "rnd x \<le> rnd y"
proof -
  consider "0 < x" | "x = 0" | "x < 0" "y < 0" | "x < 0" "0 \<le> y" using assms by linarith
  then show ?thesis
  proof cases
    case 1
    then show ?thesis using assms by (rule rnd_mono_pos)
  next
    case 2
    then show ?thesis using assms rnd_pos_pos [of y] by (cases "y = 0") (auto simp add: rnd_zero)
  next
    case 3
    have "rnd (- y) \<le> rnd (- x)" using 3 assms by (intro rnd_mono_pos) simp_all
    then show ?thesis by (simp add: rnd_minus)
  next
    case 4
    have "0 < rnd (- x)" using 4 by (intro rnd_pos_pos) simp
    then have "rnd x < 0" by (simp add: rnd_minus)
    moreover have "0 \<le> rnd y"
      using 4 rnd_pos_pos [of y] by (cases "y = 0") (auto simp add: rnd_zero)
    ultimately show ?thesis by simp
  qed
qed

lemma rnd_nonneg: "0 \<le> q \<Longrightarrow> 0 \<le> rnd q"
  using rnd_mono [of 0 q] by (simp add: rnd_zero)

section \<open>Values of the program at single pixels\<close>

text \<open>
  The values below are computed by rewriting with the definitions: the centre pixel
  (256, 256), the pixel (256, 244) inside the arrowhead, the pixels (480, 256) and
  (474, 256) of the rim, whose distances 224/256 and 218/256 are exact, and the constants
  that bound the channels.
\<close>

lemma nc_256: "norm_coord 256 = 0"
  by code_simp

lemma nc_244: "norm_coord 244 = - (3 / 64)"
  by code_simp

lemma dist_centre: "dist_of 0 0 = 0"
  by code_simp

lemma centre_in_top_cyl: "\<not> in_top_cyl cy1 cyl_height 0 0"
  by code_simp

lemma centre_in_bot_cyl: "\<not> in_bot_cyl cy2 cyl_height 0 0"
  by code_simp

lemma centre_top_e1: "\<not> top_e1 cy1 cyl_height 0 0"
  by code_simp

lemma centre_bot_e1: "bot_e1 cy1 cyl_height 0 0"
  by code_simp

lemma centre_top_e2: "top_e2 cy2 cyl_height 0 0"
  by code_simp

lemma centre_bot_e2: "\<not> bot_e2 cy2 cyl_height 0 0"
  by code_simp

lemma centre_arrow: "\<not> arrow cy2 cyl_height 0 0"
  by code_simp

lemma centre_base: "base_color 256 = (50, 35, 120)"
  by code_simp

lemma dist_244: "dist_of 0 (- (3 / 64)) < dec 85 2"
  by code_simp

lemma top_244: "in_top_cyl cy1 cyl_height 0 (- (3 / 64))"
  by code_simp

lemma bot_244: "top_e2 cy2 cyl_height 0 (- (3 / 64))"
  by code_simp

lemma arrow_244: "arrow cy2 cyl_height 0 (- (3 / 64))"
  by code_simp

lemma conn_lo: "fadd (fadd cy1 cyl_height) (dec 5 2) = dec 5 2"
  by code_simp

lemma conn_hi: "fsub (fsub cy2 cyl_height) (dec 5 2) = - dec 5 2"
  by code_simp

lemma rnd_1: "rnd 1 = 1"
  by code_simp

lemma top_r_max: "py_int (fmul 40 1) = 40"
  by code_simp

lemma bot_r_max: "py_int (fmul 60 1) = 60"
  by code_simp

lemma rim_r_max: "py_int (fmul 100 (fdiv (fsub (dec 9 1) (dec 85 2)) (dec 5 2))) = 100"
  by code_simp

lemma base_r_low: "py_int (fadd 30 (fmul 5 40)) = 230"
  by code_simp

lemma base_g_high: "py_int (fadd 20 (fmul 5 30)) = 170"
  by code_simp

lemma nc_480: "norm_coord 480 = 7 / 8"
  by code_simp

lemma nc_474: "norm_coord 474 = 109 / 128"
  by code_simp

lemma dist_480: "dist_of (7 / 8) 0 = 7 / 8"
  by code_simp

lemma dist_474: "dist_of (109 / 128) 0 = 109 / 128"
  by code_simp

lemma band_480: "dec 85 2 \<le> 7 / 8 \<and> 7 / 8 < dec 9 1"
  by code_simp

lemma band_474: "dec 85 2 \<le> 109 / 128 \<and> 109 / 128 < dec 9 1 \<and> 109 / 128 - dec 85 2 < 1 / 500"
  by code_simp

lemma alpha_480: "py_int (fmul 255 (fdiv (fsub (dec 9 1) (7 / 8)) (dec 5 2))) = 127"
  by code_simp

lemma alpha_474: "py_int (fmul 255 (fdiv (fsub (dec 9 1) (109 / 128)) (dec 5 2))) = 247"
  by code_simp

lemma alpha_09: "py_int (fmul 255 (fdiv (fsub (dec 9 1) (dec 9 1)) (dec 5 2))) = 0"
  by code_simp

section \<open>Bounds from the monotonicity of rounding\<close>

lemma dec_nonneg: "0 \<le> m \<Longrightarrow> 0 \<le> dec m k"
  by (simp add: dec_def rnd_nonneg)

lemma dec_pos: "0 < m \<Longrightarrow> 0 < dec m k"
  by (simp add: dec_def rnd_pos_pos)

lemma fadd_mono: "a \<le> a' \<Longrightarrow> b \<le> b' \<Longrightarrow> fadd a b \<le> fadd a' b'"
  by (simp add: fadd_def rnd_mono add_mono)

lemma fsub_mono: "a \<le> a' \<Longrightarrow> b' \<le> b \<Longrightarrow> fsub a b \<le> fsub a' b'"
  by (simp add: fsub_def rnd_mono diff_mono)

lemma fmul_mono: "0 \<le> c \<Longrightarrow> a \<le> b \<Longrightarrow> fmul c a \<le> fmul c b"
  by (simp add: fmul_def rnd_mono mult_left_mono)

lemma fmul_mono_right: "0 \<le> c \<Longrightarrow> a \<le> b \<Longrightarrow> fmul a c \<le> fmul b c"
  by (simp add: fmul_def rnd_mono mult_right_mono)

lemma fdiv_mono: "0 \<le> c \<Longrightarrow> a \<le> b \<Longrightarrow> fdiv a c \<le> fdiv b c"
  by (simp add: fdiv_def rnd_mono divide_right_mono)

lemma fmul_nonneg: "0 \<le> a \<Longrightarrow> 0 \<le> b \<Longrightarrow> 0 \<le> fmul a b"
  by (simp add: fmul_def rnd_nonneg)

lemma fdiv_nonneg: "0 \<le> a \<Longrightarrow> 0 \<le> b \<Longrightarrow> 0 \<le> fdiv a b"
  by (simp add: fdiv_def rnd_nonneg)

lemma py_int_mono: "a \<le> b \<Longrightarrow> py_int a \<le> py_int b"
proof -
  assume ab: "a \<le> b"
  have "\<lfloor>a\<rfloor> \<le> \<lfloor>b\<rfloor>" "\<lceil>a\<rceil> \<le> \<lceil>b\<rceil>" using ab by (simp_all add: floor_mono ceiling_mono)
  moreover have "a < 0 \<Longrightarrow> 0 \<le> b \<Longrightarrow> \<lceil>a\<rceil> \<le> \<lfloor>b\<rfloor>"
  proof -
    assume "a < 0" "0 \<le> b"
    then have "\<lceil>a\<rceil> \<le> 0" "0 \<le> \<lfloor>b\<rfloor>" by (simp_all add: ceiling_le_zero)
    then show ?thesis by linarith
  qed
  ultimately show ?thesis using ab by (auto simp add: py_int_def)
qed

lemma shade_le_1: "shade nx \<le> 1"
proof -
  have "0 \<le> fmul (fdiv \<bar>nx\<bar> cyl_width) (dec 3 1)"
    by (intro fmul_nonneg fdiv_nonneg) (simp_all add: cyl_width_def dec_nonneg)
  then have "fsub 1 (fmul (fdiv \<bar>nx\<bar> cyl_width) (dec 3 1)) \<le> rnd 1"
    unfolding fsub_def by (intro rnd_mono) simp
  then show ?thesis by (simp add: shade_def rnd_1)
qed

lemma top_color_not_red: "top_color c1 h nx ny \<noteq> red"
proof -
  have "py_int (fmul 40 (shade nx)) \<le> 40"
    using py_int_mono [OF fmul_mono [OF _ shade_le_1, of 40 nx]] by (simp add: top_r_max)
  then show ?thesis by (auto simp add: top_color_def red_def Let_def)
qed

lemma bot_color_not_red: "bot_color c2 h nx ny \<noteq> red"
proof -
  have "py_int (fmul 60 (shade nx)) \<le> 60"
    using py_int_mono [OF fmul_mono [OF _ shade_le_1, of 60 nx]] by (simp add: bot_r_max)
  then show ?thesis by (auto simp add: bot_color_def red_def Let_def)
qed

lemma base_color_not_red: "base_color y \<noteq> red"
proof
  define g where "g = fdiv (of_int y) (of_int size_px)"
  assume "base_color y = red"
  then have r: "py_int (fadd 30 (fmul g 40)) = 255" and gr: "py_int (fadd 20 (fmul g 30)) = 100"
    by (simp_all add: base_color_def red_def Let_def g_def)
  show False
  proof (cases "g \<le> 5")
    case True
    have "py_int (fadd 30 (fmul g 40)) \<le> py_int (fadd 30 (fmul 5 40))"
      using True by (intro py_int_mono fadd_mono fmul_mono_right) simp_all
    then show False using r by (simp add: base_r_low)
  next
    case False
    have "py_int (fadd 20 (fmul 5 30)) \<le> py_int (fadd 20 (fmul g 30))"
      using False by (intro py_int_mono fadd_mono fmul_mono_right) simp_all
    then show False using gr by (simp add: base_g_high)
  qed
qed

lemma rim_not_red:
  assumes "dec 85 2 \<le> d"
  shows "rgb_of (rim d) \<noteq> red"
proof -
  have "py_int (fmul 100 (fdiv (fsub (dec 9 1) d) (dec 5 2)))
      \<le> py_int (fmul 100 (fdiv (fsub (dec 9 1) (dec 85 2)) (dec 5 2)))"
    using assms by (intro py_int_mono fmul_mono fdiv_mono fsub_mono) (simp_all add: dec_nonneg)
  then show ?thesis by (auto simp add: rim_def rgb_of_def red_def Let_def rim_r_max)
qed

lemma connector_unreachable: "\<not> connector cy1 cy2 cyl_height nx ny"
  using dec_pos [of 5 2] by (simp add: connector_def conn_lo conn_hi)

lemma rgb_of_interior:
  "rgb_of (interior c1 c2 h nx ny y) =
     (if arrow c2 h nx ny then red
      else if connector c1 c2 h nx ny then red
      else if bot_member c2 h nx ny then bot_color c2 h nx ny
      else if top_member c1 h nx ny then top_color c1 h nx ny
      else base_color y)"
  by (simp add: interior_def rgb_of_def Let_def)

lemma pixel_interior:
  "dist_of (norm_coord x) (norm_coord y) < dec 85 2 \<Longrightarrow>
     pixel_at c1 c2 h x y = interior c1 c2 h (norm_coord x) (norm_coord y) y"
  by (simp add: pixel_at_def shade_pixel_def Let_def)

section \<open>The connector and the arrowhead\<close>

text \<open>
  C3. The connector branch is dead. With \<open>cy1 = -0.25\<close>, \<open>cy2 = 0.25\<close> and
  \<open>cyl_height = 0.25\<close> the guard asks for \<open>ny > 0.05\<close> and \<open>ny < -0.05\<close> at once
  (the two bounds evaluate to the double \<open>0.05\<close> and its negation), so the connector
  test is false at every coordinate; and a pixel whose colour is \<open>(255, 100, 100)\<close> is an
  interior pixel that passes the arrowhead test, because no other assignment of the
  program can produce a red channel of 255.
\<close>

theorem connector_dead:
  "\<not> connector cy1 cy2 cyl_height nx ny \<and>
   fadd (fadd cy1 cyl_height) (dec 5 2) = dec 5 2 \<and>
   fsub (fsub cy2 cyl_height) (dec 5 2) = - dec 5 2 \<and> 0 < dec 5 2 \<and>
   (rgb_of (pixel x y) = (255, 100, 100) \<longrightarrow>
      dist_of (norm_coord x) (norm_coord y) < dec 85 2 \<and>
      arrow cy2 cyl_height (norm_coord x) (norm_coord y))"
proof -
  have "dist_of (norm_coord x) (norm_coord y) < dec 85 2 \<and>
      arrow cy2 cyl_height (norm_coord x) (norm_coord y)"
    if red: "rgb_of (pixel x y) = red"
  proof (cases "dist_of (norm_coord x) (norm_coord y) < dec 85 2")
    case True
    from red have "rgb_of (interior cy1 cy2 cyl_height (norm_coord x) (norm_coord y) y) = red"
      by (simp add: pixel_def pixel_interior [OF True])
    then have "arrow cy2 cyl_height (norm_coord x) (norm_coord y)"
      using connector_unreachable top_color_not_red bot_color_not_red base_color_not_red
      by (simp add: rgb_of_interior split: if_splits)
    with True show ?thesis by simp
  next
    case False
    then have ge: "dec 85 2 \<le> dist_of (norm_coord x) (norm_coord y)" by simp
    have "rgb_of (pixel x y) \<noteq> red"
      using False rim_not_red [OF ge]
      by (auto simp add: pixel_def pixel_at_def shade_pixel_def Let_def rgb_of_def red_def)
    with red show ?thesis by simp
  qed
  then show ?thesis
    using connector_unreachable [of nx ny] dec_pos [of 5 2] by (simp add: red_def conn_lo conn_hi)
qed

theorem connector_dead_witness:
  "rgb_of (pixel 256 244) = (255, 100, 100) \<and>
   dist_of (norm_coord 256) (norm_coord 244) < dec 85 2 \<and>
   arrow cy2 cyl_height (norm_coord 256) (norm_coord 244) \<and>
   \<not> connector cy1 cy2 cyl_height (norm_coord 256) (norm_coord 244)"
proof -
  have "rgb_of (pixel 256 244) = (255, 100, 100)"
    by (simp add: pixel_def pixel_interior nc_256 nc_244 dist_244 rgb_of_interior arrow_244 red_def)
  then show ?thesis
    using connector_dead [of "norm_coord 256" "norm_coord 244" 256 244] by simp
qed

section \<open>Overlapping cylinders\<close>

theorem overlap_counterexample:
  "dist_of (norm_coord 256) (norm_coord 244) < dec 85 2 \<and>
   top_member cy1 cyl_height (norm_coord 256) (norm_coord 244) \<and>
   bot_member cy2 cyl_height (norm_coord 256) (norm_coord 244) \<and>
   top_e2 cy2 cyl_height (norm_coord 256) (norm_coord 244) \<and>
   rgb_of (pixel 256 244) = (255, 100, 100) \<and>
   rgb_of (pixel 256 244) \<noteq> (80, 170, 255)"
  by (simp add: pixel_def pixel_interior nc_256 nc_244 dist_244 rgb_of_interior arrow_244 red_def
      top_member_def bot_member_def top_244 bot_244)

text \<open>
  C4, amended. An interior pixel that passes both the top-cylinder and the
  bottom-cylinder membership test has the bottom-cylinder colour, \<open>(80, 170, 255)\<close>
  inside the bottom cylinder's upper cap and
  \<open>(int(60*shade), int(140*shade), int(220*shade))\<close> otherwise, unless it also passes
  the arrowhead test, which comes later and makes it red \<open>(255, 100, 100)\<close>. The pixel
  (256, 244) is such a pixel.
\<close>

theorem overlap_bottom_wins:
  "dist_of (norm_coord x) (norm_coord y) < dec 85 2 \<Longrightarrow>
   top_member cy1 cyl_height (norm_coord x) (norm_coord y) \<Longrightarrow>
   bot_member cy2 cyl_height (norm_coord x) (norm_coord y) \<Longrightarrow>
   rgb_of (pixel x y) =
     (if arrow cy2 cyl_height (norm_coord x) (norm_coord y) then (255, 100, 100)
      else if top_e2 cy2 cyl_height (norm_coord x) (norm_coord y) then (80, 170, 255)
      else (py_int (fmul 60 (shade (norm_coord x))), py_int (fmul 140 (shade (norm_coord x))),
            py_int (fmul 220 (shade (norm_coord x)))))"
  using connector_unreachable
  by (simp add: pixel_def pixel_interior rgb_of_interior red_def bot_color_def Let_def)

theorem overlap_bottom_wins_witness:
  "dist_of (norm_coord 256) (norm_coord 256) < dec 85 2 \<and>
   top_member cy1 cyl_height (norm_coord 256) (norm_coord 256) \<and>
   bot_member cy2 cyl_height (norm_coord 256) (norm_coord 256) \<and>
   rgb_of (pixel 256 256) = (80, 170, 255)"
proof -
  have h: "dist_of (norm_coord 256) (norm_coord 256) < dec 85 2"
    "top_member cy1 cyl_height (norm_coord 256) (norm_coord 256)"
    "bot_member cy2 cyl_height (norm_coord 256) (norm_coord 256)"
    using dec_pos [of 85 2]
    by (simp_all add: nc_256 dist_centre top_member_def bot_member_def centre_bot_e1 centre_top_e2)
  from overlap_bottom_wins [OF h] h show ?thesis
    by (simp add: nc_256 centre_arrow centre_top_e2)
qed

section \<open>The centre pixel\<close>

theorem centre_counterexample:
  "pixel 256 256 \<noteq> (50, 35, 120, 255) \<and>
   bot_e1 cy1 cyl_height (norm_coord 256) (norm_coord 256) \<and>
   top_e2 cy2 cyl_height (norm_coord 256) (norm_coord 256)"
  using dec_pos [of 85 2]
  by (simp add: pixel_def pixel_at_def shade_pixel_def interior_def Let_def nc_256 dist_centre
      top_member_def bot_member_def centre_bot_e1 centre_top_e2 bot_color_def
      connector_unreachable centre_arrow)

text \<open>
  C1, amended. The pixel at the canvas centre (256, 256) has \<open>nx = ny = 0\<close> and
  \<open>dist = 0\<close> and takes the interior branch. It lies in neither rectangle, but inside
  the lower cap of the top cylinder and the upper cap of the bottom cylinder, both centred
  at \<open>ny = 0\<close>; it is outside the connector and the arrowhead. Its base gradient colour
  is \<open>(50, 35, 120)\<close> and its final value \<open>(80, 170, 255, 255)\<close>.
\<close>

theorem centre_pixel:
  "norm_coord 256 = 0 \<and> dist_of 0 0 = 0 \<and> dist_of 0 0 < dec 85 2 \<and>
   \<not> in_top_cyl cy1 cyl_height 0 0 \<and> \<not> in_bot_cyl cy2 cyl_height 0 0 \<and>
   \<not> top_e1 cy1 cyl_height 0 0 \<and> bot_e1 cy1 cyl_height 0 0 \<and>
   top_e2 cy2 cyl_height 0 0 \<and> \<not> bot_e2 cy2 cyl_height 0 0 \<and>
   \<not> connector cy1 cy2 cyl_height 0 0 \<and> \<not> arrow cy2 cyl_height 0 0 \<and>
   base_color 256 = (50, 35, 120) \<and>
   pixel 256 256 = (80, 170, 255, 255)"
  using dec_pos [of 85 2]
  by (simp add: pixel_def pixel_at_def shade_pixel_def interior_def Let_def nc_256 dist_centre
      top_member_def bot_member_def centre_bot_e1 centre_top_e2 bot_color_def
      connector_unreachable centre_arrow centre_in_top_cyl centre_in_bot_cyl centre_top_e1
      centre_bot_e2 centre_base)

section \<open>The rim\<close>

lemma alpha_rim: "alpha (rim d) = py_int (fmul 255 (fdiv (fsub (dec 9 1) d) (dec 5 2)))"
  by (simp add: rim_def alpha_def Let_def)

lemma pixel_rim:
  "dec 85 2 \<le> dist_of (norm_coord x) (norm_coord y) \<Longrightarrow>
   dist_of (norm_coord x) (norm_coord y) < dec 9 1 \<Longrightarrow>
   pixel x y = rim (dist_of (norm_coord x) (norm_coord y))"
  by (simp add: pixel_def pixel_at_def shade_pixel_def Let_def)

theorem rim_counterexample:
  "dec 85 2 \<le> dist_of (norm_coord 474) (norm_coord 256) \<and>
   dist_of (norm_coord 474) (norm_coord 256) < dec 9 1 \<and>
   dist_of (norm_coord 474) (norm_coord 256) - dec 85 2 < 1 / 500 \<and>
   alpha (pixel 474 256) = 247 \<and>
   17 * (255 * (1 / 18)) < (of_int (alpha (pixel 474 256)) :: rat)"
proof -
  have d: "dist_of (norm_coord 474) (norm_coord 256) = 109 / 128"
    by (simp add: nc_474 nc_256 dist_474)
  have "alpha (pixel 474 256) = 247"
    using band_474 by (simp add: pixel_rim d alpha_rim alpha_474)
  then show ?thesis using band_474 by (simp add: d)
qed

text \<open>
  C5, amended. In the rim band \<open>0.85 \<le> dist < 0.9\<close> the alpha of a pixel is
  \<open>int(255 * af)\<close> with \<open>af = (0.9 - dist) / 0.05\<close>. As a function of the distance it
  never increases, is 0 at \<open>dist = 0.9\<close>, and is 127 at the pixel (480, 256), whose
  distance is exactly 0.875. Just inside the 0.85 boundary it is close to 255 (247 at the
  pixel (474, 256)), not close to 255/18.
\<close>

theorem rim_alpha:
  "dec 85 2 \<le> dist_of (norm_coord x) (norm_coord y) \<Longrightarrow>
   dist_of (norm_coord x) (norm_coord y) < dec 9 1 \<Longrightarrow>
   d1 \<le> d2 \<Longrightarrow>
   alpha (pixel x y) =
     py_int (fmul 255 (fdiv (fsub (dec 9 1) (dist_of (norm_coord x) (norm_coord y))) (dec 5 2))) \<and>
   alpha (rim d2) \<le> alpha (rim d1) \<and>
   alpha (rim (dec 9 1)) = 0 \<and>
   dist_of (norm_coord 480) (norm_coord 256) = 7 / 8 \<and> alpha (pixel 480 256) = 127"
proof -
  assume b: "dec 85 2 \<le> dist_of (norm_coord x) (norm_coord y)"
    "dist_of (norm_coord x) (norm_coord y) < dec 9 1" and le: "d1 \<le> d2"
  have mono: "alpha (rim d2) \<le> alpha (rim d1)"
    unfolding alpha_rim using le
    by (intro py_int_mono fmul_mono fdiv_mono fsub_mono) (simp_all add: dec_nonneg)
  have d: "dist_of (norm_coord 480) (norm_coord 256) = 7 / 8"
    by (simp add: nc_480 nc_256 dist_480)
  have "alpha (pixel 480 256) = 127"
    using band_480 by (simp add: pixel_rim d alpha_rim alpha_480)
  then show ?thesis using mono d by (simp add: pixel_rim [OF b] alpha_rim alpha_09)
qed

theorem rim_alpha_witness:
  "dec 85 2 \<le> dist_of (norm_coord 474) (norm_coord 256) \<and>
   dist_of (norm_coord 474) (norm_coord 256) < dec 9 1 \<and>
   (109 / 128 :: rat) \<le> 7 / 8 \<and>
   alpha (pixel 474 256) =
     py_int (fmul 255 (fdiv (fsub (dec 9 1) (dist_of (norm_coord 474) (norm_coord 256))) (dec 5 2))) \<and>
   alpha (rim (7 / 8)) \<le> alpha (rim (109 / 128)) \<and>
   alpha (rim (7 / 8)) = 127 \<and> alpha (rim (109 / 128)) = 247"
proof -
  have d: "dist_of (norm_coord 474) (norm_coord 256) = 109 / 128"
    by (simp add: nc_474 nc_256 dist_474)
  have h: "dec 85 2 \<le> dist_of (norm_coord 474) (norm_coord 256)"
    "dist_of (norm_coord 474) (norm_coord 256) < dec 9 1" "(109 / 128 :: rat) \<le> 7 / 8"
    using band_474 by (simp_all add: d)
  from rim_alpha [OF h] h show ?thesis by (simp add: alpha_rim alpha_480 alpha_474 d)
qed

section \<open>The outer mask\<close>

lemma dec_085_lt_09: "dec 85 2 < dec 9 1"
  by code_simp

lemma corner_dist: "dec 9 1 \<le> dist_of (norm_coord 0) (norm_coord 0)"
  by code_simp

lemma centre_dist: "dist_of (norm_coord 256) (norm_coord 256) < dec 85 2"
  by code_simp

text \<open>
  C6. Every pixel whose distance from the centre is at least the double \<open>0.9\<close> is fully
  transparent black, \<open>(0, 0, 0, 0)\<close>.
\<close>

theorem outside_transparent:
  "dec 9 1 \<le> dist_of (norm_coord x) (norm_coord y) \<Longrightarrow> pixel x y = (0, 0, 0, 0)"
  using dec_085_lt_09 by (simp add: pixel_def pixel_at_def shade_pixel_def Let_def)

theorem outside_transparent_witness:
  "dec 9 1 \<le> dist_of (norm_coord 0) (norm_coord 0) \<and> pixel 0 0 = (0, 0, 0, 0)"
  using outside_transparent [OF corner_dist] corner_dist by simp

text \<open>
  C9. Every pixel of the interior, \<open>dist < 0.85\<close>, has alpha 255: the branch assigns \<open>a\<close>
  once, with the base gradient, and the overrides of cylinders, caps, connector and
  arrowhead assign \<open>r, g, b\<close> only.
\<close>

theorem interior_opaque:
  "dist_of (norm_coord x) (norm_coord y) < dec 85 2 \<Longrightarrow> alpha (pixel x y) = 255"
  by (simp add: pixel_def pixel_at_def shade_pixel_def interior_def alpha_def Let_def)

theorem interior_opaque_witness:
  "dist_of (norm_coord 256) (norm_coord 256) < dec 85 2 \<and> alpha (pixel 256 256) = 255"
  using interior_opaque [OF centre_dist] centre_dist by simp

section \<open>Chunks\<close>

text \<open>
  C7. The IHDR payload is the 13 bytes: width 512 and height 512, each as four bytes
  big-endian, then bit depth 8, colour type 6, compression 0, filter 0, interlace 0.
\<close>

theorem ihdr_payload:
  "ihdr = Inr [0, 0, 2, 0, 0, 0, 2, 0, 8, 6, 0, 0, 0] \<and>
   length [0, 0, 2, 0, 0, 0, 2, 0, 8, 6, 0, 0, 0 :: byte] = 13 \<and>
   be32 512 = [0, 0, 2, 0]"
  by (simp add: ihdr_def pack_I_def pack_B_def be32_def size_px_def)

lemma crc32_range: "0 \<le> crc32 bs \<and> crc32 bs < 2 ^ 32"
  using uint_lt2p [of "NOT (foldl crc_byte 0xFFFFFFFF bs)"] by (simp add: crc32_def)

lemma crc32_mask: "crc32 bs AND 0xffffffff = crc32 bs"
proof -
  have "crc32 bs AND mask 32 = crc32 bs"
    using crc32_range [of bs] by (simp only: take_bit_eq_mask [symmetric] take_bit_int_eq_self)
  then show ?thesis by (simp add: mask_eq_exp_minus_1)
qed

lemma crc_IHDR:
  "be32 (crc32 (tag_IHDR @ [0, 0, 2, 0, 0, 0, 2, 0, 8, 6, 0, 0, 0])) = [244, 120, 212, 250]"
  by (simp add: crc32_def tag_IHDR_def crc_byte_def crc_step_def be32_def)

lemma crc_IHDR_payload:
  "be32 (crc32 [0, 0, 2, 0, 0, 0, 2, 0, 8, 6, 0, 0, 0]) = [213, 156, 250, 119]"
  by (simp add: crc32_def crc_byte_def crc_step_def be32_def)

text \<open>
  C8. A chunk is the length of the payload as four bytes big-endian, the type tag, the
  payload, and the CRC-32 of tag and payload together as four bytes big-endian. This
  holds for every tag and every payload shorter than \<open>2\<^sup>3\<^sup>2\<close> bytes, hence for the three
  chunks of the stream; on the IHDR chunk the trailing bytes differ from the CRC-32 of
  the payload alone.
\<close>

theorem chunk_framing:
  "length d < 2 ^ 32 \<Longrightarrow>
     chunk t d = Inr (be32 (int (length d)) @ t @ d @ be32 (crc32 (t @ d)))"
  using crc32_range [of "t @ d"]
  by (simp add: chunk_def pack_I_def crc32_mask Let_def)

theorem chunk_framing_witness:
  "length [0, 0, 2, 0, 0, 0, 2, 0, 8, 6, 0, 0, 0 :: byte] < 2 ^ 32 \<and>
   chunk tag_IHDR [0, 0, 2, 0, 0, 0, 2, 0, 8, 6, 0, 0, 0] =
     Inr ([0, 0, 0, 13] @ tag_IHDR @ [0, 0, 2, 0, 0, 0, 2, 0, 8, 6, 0, 0, 0] @ [244, 120, 212, 250]) \<and>
   [244, 120, 212, 250] \<noteq> be32 (crc32 [0, 0, 2, 0, 0, 0, 2, 0, 8, 6, 0, 0, 0])"
  using chunk_framing [of "[0, 0, 2, 0, 0, 0, 2, 0, 8, 6, 0, 0, 0]" tag_IHDR]
  by (simp add: crc_IHDR crc_IHDR_payload) (simp add: be32_def)

section \<open>Every value of the distance\<close>

text \<open>
  The branch taken and what each branch computes, for an arbitrary value \<open>d\<close> of
  \<open>dist\<close>: whatever double the library returns for the square root, the pixel is
  transparent from 0.9 on, opaque below 0.85, the rim in between, and red only inside the
  arrowhead.
\<close>

lemma shade_pixel_outside:
  "dec 9 1 \<le> d \<Longrightarrow> shade_pixel c1 c2 h nx ny d y = (0, 0, 0, 0)"
  using dec_085_lt_09 by (simp add: shade_pixel_def)

lemma shade_pixel_interior:
  "d < dec 85 2 \<Longrightarrow> alpha (shade_pixel c1 c2 h nx ny d y) = 255"
  by (simp add: shade_pixel_def interior_def alpha_def Let_def)

lemma shade_pixel_rim:
  "dec 85 2 \<le> d \<Longrightarrow> d < dec 9 1 \<Longrightarrow> shade_pixel c1 c2 h nx ny d y = rim d"
  by (simp add: shade_pixel_def)

lemma shade_pixel_red:
  assumes "rgb_of (shade_pixel cy1 cy2 cyl_height nx ny d y) = red"
  shows "d < dec 85 2 \<and> arrow cy2 cyl_height nx ny"
proof (cases "d < dec 85 2")
  case True
  from assms have "rgb_of (interior cy1 cy2 cyl_height nx ny y) = red"
    by (simp add: shade_pixel_def True)
  then have "arrow cy2 cyl_height nx ny"
    using connector_unreachable top_color_not_red bot_color_not_red base_color_not_red
    by (simp add: rgb_of_interior split: if_splits)
  with True show ?thesis by simp
next
  case False
  then have ge: "dec 85 2 \<le> d" by simp
  have "rgb_of (shade_pixel cy1 cy2 cyl_height nx ny d y) \<noteq> red"
    using False rim_not_red [OF ge] by (auto simp add: shade_pixel_def rgb_of_def red_def)
  with assms show ?thesis by simp
qed

section \<open>The byte stream\<close>




































end
